theory Spec2Isabelle
  imports Complex_Main
begin

section \<open>Data model of the hybrid batch scraper\<close>

text \<open>
  The scraper of \<^verbatim>\<open>src/scrap.py\<close> is the class \<^verbatim>\<open>HybridBatchScraper\<close>. Its
  dictionaries have fixed keys and become records. Counters that start at zero and are
  only incremented are natural numbers; page numbers, batch ids and the numbers read
  back from the progress file are Python integers. Python floats (the average response
  time, the success rate, the break duration) are modelled as exact rationals, so
  rounding is not part of the model. Keys whose names clash with HOL are suffixed.
\<close>

text \<open>
  The url of a listing as \<^verbatim>\<open>extract_listing_data\<close> builds it: the address of the site
  followed by the \<^verbatim>\<open>href\<close> of the row's title link, or the placeholder \<^verbatim>\<open>N/A\<close> when
  the row has no title link. \<open>url_text\<close> is the string the dictionary holds.
\<close>

datatype listing_url = NoLink | Link string

definition site :: string where
  "site = ''https://example-realestate-site.com''"

definition url_text :: "listing_url \<Rightarrow> string" where
  "url_text u = (case u of NoLink \<Rightarrow> ''N/A'' | Link href \<Rightarrow> site @ href)"

record listing =
  index :: nat
  title :: string
  url :: listing_url
  price :: string
  location :: string
  date :: string
  room_count :: string
  area :: string
  floor_no :: string
  age :: string
  scraped_at :: string
  page_number :: int

record page_stats =
  total_pages_scraped :: nat
  successful_pages :: nat
  failed_pages :: nat
  total_listings :: nat
  avg_response_time :: rat
  session_start_time :: rat

record batch =
  batch_id :: int
  batch_start :: int
  batch_end :: int
  batch_name :: string

record completed_batch =
  cb_id :: int
  cb_name :: string
  cb_start :: int
  cb_end :: int
  completed_at :: string
  cb_date :: string
  pages_scraped :: int
  listings_found :: nat

record progress =
  current_batch_id :: int
  completed_batches :: "completed_batch list"
  daily_pages_scraped :: int
  last_scrape_date :: string
  session_stats :: page_stats
  next_session_time :: "string option"

record rules =
  same_day_max_batches :: int
  min_break_minutes :: rat
  max_break_minutes :: rat
  daily_page_limit :: int
  success_threshold :: rat
  peak_hours :: "int \<times> int"
  off_peak_hours :: "int \<times> int"

text \<open>
  A file is missing, present but not readable as what it should hold (an empty or
  corrupted file: \<^verbatim>\<open>json.load\<close> or \<^verbatim>\<open>pd.read_csv\<close> raises), or holds a value.
\<close>

datatype 'a stored = Missing | Unreadable | Content 'a

text \<open>The lines the scraper writes to its log, one constructor per logging call.\<close>

datatype event =
    ProgressLoaded
  | CreatingNewProgressFile
  | ProgressLoadingError
  | ProgressSaved
  | ProgressSavingError
  | ScrapingPage int
  | NoListingsFound int
  | PageScraped int nat
  | PageScrapingError int
  | PageFailed int
  | PageDelay
  | ExistingLoaded nat
  | CsvNotFound
  | ExistingLoadingError
  | DuplicateCheck nat nat
  | RecordsAdded nat
  | NoNewUniqueRecords
  | BatchSavingError
  | BatchStarting int int
  | BatchCompleted nat
  | MakingDecision int
  | DailyLimitExceeded
  | SameDayLimitExceeded
  | LowSuccessRate rat
  | EveningHours
  | AllChecksOK
  | BreakThenNext rat
  | BreakStarting rat
  | BreakCompleted
  | ContinuingTomorrow

text \<open>
  What \<^verbatim>\<open>datetime.now()\<close> gives during one call: the date as \<^verbatim>\<open>%Y-%m-%d\<close>, the
  hour, the time stamp, and the time stamp one day later.
\<close>

record clock =
  now_date :: string
  now_hour :: int
  now_stamp :: string
  tomorrow_stamp :: string

text \<open>
  What one visit of a page delivers: an exception anywhere between building the URL and
  parsing the page, or the rows found on the page together with the time the visit took.
  A row is the result of \<^verbatim>\<open>extract_listing_data\<close> on it, \<open>None\<close> when that raised.
\<close>

datatype outcome = FetchError | Page "listing option list" rat

text \<open>
  The object and the two files it owns. \<open>fs_writable\<close> says whether opening a file for
  writing succeeds; every write of the source sits in a \<^verbatim>\<open>try\<close> that logs the failure.
\<close>

record scraper =
  listings :: "listing list"
  scraped_pages :: nat
  current_batch :: "batch option"
  continuation_rules :: rules
  batches :: "batch list"
  stats :: page_stats
  progress_file :: "progress stored"
  total_csv_file :: "listing list stored"
  fs_writable :: bool
  logged :: "event list"

definition say :: "event \<Rightarrow> scraper \<Rightarrow> scraper" where
  "say e s = s\<lparr>logged := logged s @ [e]\<rparr>"

section \<open>Progress store\<close>

definition save_progress :: "progress \<Rightarrow> scraper \<Rightarrow> scraper" where
  "save_progress progress_data s =
     (if fs_writable s then say ProgressSaved (s\<lparr>progress_file := Content progress_data\<rparr>)
      else say ProgressSavingError s)"

definition create_initial_progress :: "clock \<Rightarrow> scraper \<Rightarrow> progress \<times> scraper" where
  "create_initial_progress now s =
     (let p = \<lparr>current_batch_id = 1, completed_batches = [], daily_pages_scraped = 0,
               last_scrape_date = now_date now, session_stats = stats s,
               next_session_time = None\<rparr>
      in (p, save_progress p s))"

definition load_progress :: "clock \<Rightarrow> scraper \<Rightarrow> progress \<times> scraper" where
  "load_progress now s =
     (case progress_file s of
        Content p \<Rightarrow> (p, say ProgressLoaded s)
      | Missing \<Rightarrow> create_initial_progress now (say CreatingNewProgressFile s)
      | Unreadable \<Rightarrow> create_initial_progress now (say ProgressLoadingError s))"

section \<open>Dataset store\<close>

text \<open>
  The dataset file is modelled by the rows written to it. A data frame is modelled by its
  rows, each with the value pandas holds in its \<^verbatim>\<open>url\<close> column, since that column is
  all the merge looks at. In a frame built from the listings in memory the value is the
  string of the url. In a frame read back by \<^verbatim>\<open>pd.read_csv\<close> with its default
  settings a string that is one of pandas' default NA strings has become NaN; the other
  strings a url can be start with the site address, are not numbers, and are read back
  as they were written.
\<close>

datatype cell = NaN | Text string

definition na_values :: "string list" where
  "na_values =
     ['''', ''#N/A'', ''#N/A N/A'', ''#NA'', ''-1.#IND'', ''-1.#QNAN'', ''-NaN'', ''-nan'',
      ''1.#IND'', ''1.#QNAN'', ''<NA>'', ''N/A'', ''NA'', ''NULL'', ''NaN'', ''None'',
      ''n/a'', ''nan'', ''null'']"

definition read_csv_cell :: "string \<Rightarrow> cell" where
  "read_csv_cell written = (if written \<in> set na_values then NaN else Text written)"

type_synonym frame = "(cell \<times> listing) list"

definition read_csv :: "listing list \<Rightarrow> frame" where
  "read_csv rows = map (\<lambda>r. (read_csv_cell (url_text (url r)), r)) rows"

text \<open>\<^verbatim>\<open>pd.DataFrame(self.listings)\<close> and the rows \<^verbatim>\<open>to_csv\<close> writes for a frame.\<close>

definition frame_of_listings :: "listing list \<Rightarrow> frame" where
  "frame_of_listings ls = map (\<lambda>r. (Text (url_text (url r)), r)) ls"

definition to_csv :: "frame \<Rightarrow> listing list" where
  "to_csv df = map snd df"

definition load_existing_data :: "scraper \<Rightarrow> frame \<times> scraper" where
  "load_existing_data s =
     (case total_csv_file s of
        Content rows \<Rightarrow> (read_csv rows, say (ExistingLoaded (length rows)) s)
      | Missing \<Rightarrow> ([], say CsvNotFound s)
      | Unreadable \<Rightarrow> ([], say ExistingLoadingError s))"

text \<open>
  \<^verbatim>\<open>drop_duplicates(subset=['url'], keep='last')\<close>: a row is dropped when a later row
  has the same value in the \<^verbatim>\<open>url\<close> column; the rows that stay keep their order.
\<close>

fun drop_duplicates_last :: "frame \<Rightarrow> frame" where
  "drop_duplicates_last [] = []"
| "drop_duplicates_last (r # rs) =
     (if fst r \<in> set (map fst rs) then drop_duplicates_last rs
      else r # drop_duplicates_last rs)"

definition remove_duplicates :: "frame \<Rightarrow> frame \<Rightarrow> scraper \<Rightarrow> frame \<times> scraper" where
  "remove_duplicates new_df existing_df s =
     (if existing_df = [] then (new_df, s)
      else
        (let combined_df = existing_df @ new_df;
             deduplicated_df = drop_duplicates_last combined_df;
             new_records = filter (\<lambda>r. fst r \<notin> set (map fst existing_df)) deduplicated_df
         in (new_records, say (DuplicateCheck (length new_df) (length new_records)) s)))"

text \<open>Writing with \<^verbatim>\<open>mode='a'\<close> puts the rows after those the file holds.\<close>

definition append_rows :: "listing list stored \<Rightarrow> listing list \<Rightarrow> listing list stored" where
  "append_rows f rows =
     (case f of Content old \<Rightarrow> Content (old @ rows)
      | Missing \<Rightarrow> Content rows
      | Unreadable \<Rightarrow> Content rows)"

definition save_batch_data :: "scraper \<Rightarrow> scraper" where
  "save_batch_data s =
     (if listings s = [] then s
      else
        (let (existing_df, s1) = load_existing_data s;
             new_df = frame_of_listings (listings s1);
             (unique_new_df, s2) = remove_duplicates new_df existing_df s1
         in if unique_new_df \<noteq> [] then
              (if \<not> fs_writable s2 then say BatchSavingError s2
               else if existing_df = [] then
                 say (RecordsAdded (length unique_new_df))
                   (s2\<lparr>total_csv_file := Content (to_csv unique_new_df)\<rparr>)
               else
                 say (RecordsAdded (length unique_new_df))
                   (s2\<lparr>total_csv_file :=
                         append_rows (total_csv_file s2) (to_csv unique_new_df)\<rparr>))
            else say NoNewUniqueRecords s2))"

section \<open>Scraping one page\<close>

text \<open>
  \<^verbatim>\<open>scrape_page\<close>: the browser, the sleeps and the simulated activity are the external
  page fetcher \<open>fetch\<close>; what they leave behind is the outcome of the visit. A visit that
  raises, or that finds no row, adds one to \<open>failed_pages\<close> and returns \<open>False\<close>.
\<close>

definition scrape_page :: "(int \<Rightarrow> outcome) \<Rightarrow> int \<Rightarrow> scraper \<Rightarrow> bool \<times> scraper" where
  "scrape_page fetch page_num s =
     (let s1 = say (ScrapingPage page_num) s
      in case fetch page_num of
           FetchError \<Rightarrow>
             (False, (say (PageScrapingError page_num) s1)
                       \<lparr>stats := (stats s1)\<lparr>failed_pages := failed_pages (stats s1) + 1\<rparr>\<rparr>)
         | Page rows response_time \<Rightarrow>
             if rows = [] then
               (False, (say (NoListingsFound page_num) s1)
                         \<lparr>stats := (stats s1)\<lparr>failed_pages := failed_pages (stats s1) + 1\<rparr>\<rparr>)
             else
               (let page_listings = List.map_filter (\<lambda>listing_data. listing_data) rows;
                    n = successful_pages (stats s1) + 1;
                    st = (stats s1)
                      \<lparr>successful_pages := n,
                       total_listings := total_listings (stats s1) + length page_listings,
                       avg_response_time :=
                         (avg_response_time (stats s1) * of_nat (n - 1) + response_time)
                           / of_nat n\<rparr>
                in (True, say (PageScraped page_num (length page_listings))
                            (s1\<lparr>listings := listings s1 @ page_listings,
                                scraped_pages := scraped_pages s1 + 1,
                                stats := st\<rparr>))))"

text \<open>\<^verbatim>\<open>smart_page_delay\<close> only sleeps and moves the mouse; the model keeps its log line.\<close>

definition smart_page_delay :: "scraper \<Rightarrow> scraper" where
  "smart_page_delay s = say PageDelay s"

section \<open>Risk assessment and pacing\<close>

definition calculate_success_rate :: "scraper \<Rightarrow> rat" where
  "calculate_success_rate s =
     (let total_pages = successful_pages (stats s) + failed_pages (stats s)
      in if total_pages = 0 then 100
         else (of_nat (successful_pages (stats s)) / of_nat total_pages) * 100)"

datatype risk = LOW | MEDIUM | HIGH

definition assess_risk_level :: "scraper \<Rightarrow> risk" where
  "assess_risk_level s =
     (let success_rate = calculate_success_rate s;
          avg = avg_response_time (stats s)
      in if success_rate \<ge> 95 \<and> avg < 3 then LOW
         else if success_rate \<ge> 85 \<and> avg < 5 then MEDIUM
         else HIGH)"

definition is_peak_hours :: "clock \<Rightarrow> scraper \<Rightarrow> bool" where
  "is_peak_hours now s =
     (let (peak_start, peak_end) = peak_hours (continuation_rules s)
      in peak_start \<le> now_hour now \<and> now_hour now \<le> peak_end)"

text \<open>
  \<^verbatim>\<open>random.uniform(a, b)\<close> is \<^verbatim>\<open>a + (b - a) * random()\<close>, where \<^verbatim>\<open>random()\<close> is the
  draw \<open>u\<close> with \<open>0 \<le> u < 1\<close>. Nothing in it orders \<open>a\<close> and \<open>b\<close>.
\<close>

definition uniform :: "rat \<Rightarrow> rat \<Rightarrow> rat \<Rightarrow> rat" where
  "uniform a b u = a + (b - a) * u"

definition calculate_optimal_break :: "rat \<Rightarrow> scraper \<Rightarrow> rat" where
  "calculate_optimal_break u s =
     (let base_break = min_break_minutes (continuation_rules s);
          max_break = max_break_minutes (continuation_rules s);
          risk_level = assess_risk_level s
      in if risk_level = LOW then uniform base_break (base_break + 30) u
         else if risk_level = MEDIUM then uniform (base_break + 30) (base_break + 60) u
         else uniform (base_break + 60) max_break u)"

section \<open>Continuation decision\<close>

datatype decision = CONTINUE | TOMORROW

text \<open>\<^verbatim>\<open>intelligent_break\<close> closes the browser, sleeps and opens a new browser.\<close>

definition intelligent_break :: "rat \<Rightarrow> scraper \<Rightarrow> scraper" where
  "intelligent_break duration_minutes s =
     say BreakCompleted (say (BreakStarting duration_minutes) s)"

definition continue_with_break :: "rat \<Rightarrow> scraper \<Rightarrow> decision \<times> scraper" where
  "continue_with_break u s =
     (let break_duration = calculate_optimal_break u s;
          s1 = say (BreakThenNext break_duration) s;
          s2 = intelligent_break break_duration s1
      in (CONTINUE, s2))"

definition schedule_tomorrow :: "clock \<Rightarrow> scraper \<Rightarrow> decision \<times> scraper" where
  "schedule_tomorrow now s =
     (let s1 = say ContinuingTomorrow s;
          (progress, s2) = load_progress now s1;
          s3 = save_progress (progress\<lparr>next_session_time := Some (tomorrow_stamp now)\<rparr>) s2
      in (TOMORROW, s3))"

definition decide_continuation ::
  "rat \<Rightarrow> batch \<Rightarrow> clock \<Rightarrow> scraper \<Rightarrow> decision \<times> scraper" where
  "decide_continuation u completed now s =
     (let s1 = say (MakingDecision (batch_id completed)) s;
          (progress, s2) = load_progress now s1
      in if daily_pages_scraped progress \<ge> daily_page_limit (continuation_rules s2) then
           schedule_tomorrow now (say DailyLimitExceeded s2)
         else
           (let completed_today =
                  length (filter (\<lambda>b. cb_date b = now_date now) (completed_batches progress))
            in if int completed_today \<ge> same_day_max_batches (continuation_rules s2) then
                 schedule_tomorrow now (say SameDayLimitExceeded s2)
               else
                 (let success_rate = calculate_success_rate s2
                  in if success_rate < success_threshold (continuation_rules s2) then
                       schedule_tomorrow now (say (LowSuccessRate success_rate) s2)
                     else if now_hour now \<ge> 18 then
                       schedule_tomorrow now (say EveningHours s2)
                     else continue_with_break u (say AllChecksOK s2))))"

section \<open>Running one batch\<close>

text \<open>\<^verbatim>\<open>range(a, b)\<close> on integers: empty when \<open>b \<le> a\<close>.\<close>

definition py_range :: "int \<Rightarrow> int \<Rightarrow> int list" where
  "py_range a b = [a..b - 1]"

text \<open>The \<^verbatim>\<open>for page in range(...)\<close> loop of \<^verbatim>\<open>run_batch\<close>, over the pages still to visit.\<close>

fun scrape_pages :: "(int \<Rightarrow> outcome) \<Rightarrow> int \<Rightarrow> int list \<Rightarrow> scraper \<Rightarrow> scraper" where
  "scrape_pages fetch last_page [] s = s"
| "scrape_pages fetch last_page (page # pages) s =
     (let (success, s1) = scrape_page fetch page s;
          s2 = (if \<not> success then say (PageFailed page) s1 else s1);
          s3 = (if page < last_page then smart_page_delay s2 else s2)
      in scrape_pages fetch last_page pages s3)"

definition run_batch ::
  "(int \<Rightarrow> outcome) \<Rightarrow> batch \<Rightarrow> clock \<Rightarrow> scraper \<Rightarrow> bool \<times> scraper" where
  "run_batch fetch batch_info now s =
     (let s1 = say (BatchStarting (batch_start batch_info) (batch_end batch_info)) s;
          s2 = s1\<lparr>current_batch := Some batch_info, listings := []\<rparr>;
          s3 = scrape_pages fetch (batch_end batch_info)
                 (py_range (batch_start batch_info) (batch_end batch_info + 1)) s2;
          s4 = save_batch_data s3;
          (progress, s5) = load_progress now s4;
          n = int (length (py_range (batch_start batch_info) (batch_end batch_info + 1)));
          entry = \<lparr>cb_id = batch_id batch_info, cb_name = batch_name batch_info,
                    cb_start = batch_start batch_info, cb_end = batch_end batch_info,
                    completed_at = now_stamp now, cb_date = now_date now,
                    pages_scraped = n, listings_found = length (listings s5)\<rparr>;
          progress1 = progress\<lparr>completed_batches := completed_batches progress @ [entry]\<rparr>;
          progress2 = progress1\<lparr>daily_pages_scraped := daily_pages_scraped progress1 + n\<rparr>;
          progress3 = progress2\<lparr>current_batch_id := batch_id batch_info + 1\<rparr>;
          progress4 = progress3\<lparr>session_stats := stats s5\<rparr>;
          s6 = save_progress progress4 s5
      in (True, say (BatchCompleted (length (listings s6))) s6))"

section \<open>The object after construction\<close>

definition default_rules :: rules where
  "default_rules =
     \<lparr>same_day_max_batches = 1, min_break_minutes = 15, max_break_minutes = 45,
      daily_page_limit = 50, success_threshold = 90, peak_hours = (9, 17),
      off_peak_hours = (18, 23)\<rparr>"

definition default_batches :: "batch list" where
  "default_batches =
     [\<lparr>batch_id = 1, batch_start = 51, batch_end = 60, batch_name = ''Batch 1 (51-60)''\<rparr>]"

text \<open>
  \<^verbatim>\<open>__init__\<close>, given the two files as they are found, whether they can be written, the
  start time and the clock; it ends with a call of \<^verbatim>\<open>load_progress\<close>.
\<close>

definition init_scraper ::
  "progress stored \<Rightarrow> listing list stored \<Rightarrow> bool \<Rightarrow> rat \<Rightarrow> clock \<Rightarrow> scraper" where
  "init_scraper pf cf w t now =
     snd (load_progress now
       \<lparr>listings = [], scraped_pages = 0, current_batch = None,
        continuation_rules = default_rules, batches = default_batches,
        stats = \<lparr>total_pages_scraped = 0, successful_pages = 0, failed_pages = 0,
                 total_listings = 0, avg_response_time = 0, session_start_time = t\<rparr>,
        progress_file = pf, total_csv_file = cf, fs_writable = w, logged = []\<rparr>)"

section \<open>Observations and example inputs\<close>

text \<open>The rows a dataset file holds, as \<^verbatim>\<open>load_existing_data\<close> reads them.\<close>

definition stored_rows :: "listing list stored \<Rightarrow> listing list" where
  "stored_rows f = (case f of Content rows \<Rightarrow> rows | Missing \<Rightarrow> [] | Unreadable \<Rightarrow> [])"

text \<open>Of the rows with the same url, the last one; the rows that stay keep their order.\<close>

fun last_of_each_url :: "listing list \<Rightarrow> listing list" where
  "last_of_each_url [] = []"
| "last_of_each_url (r # rs) =
     (if url r \<in> set (map url rs) then last_of_each_url rs else r # last_of_each_url rs)"

text \<open>
  The success rate in the words of the specification:
  \<open>100 * successfulPages / (successfulPages + failedPages)\<close>, and \<open>100\<close> when the
  denominator is \<open>0\<close>.
\<close>

definition spec_success_rate :: "nat \<Rightarrow> nat \<Rightarrow> rat" where
  "spec_success_rate successful failed =
     (if successful + failed = 0 then 100
      else 100 * of_nat successful / of_nat (successful + failed))"

text \<open>A listing with the given url and price, and a clock on the morning of 2024-01-02.\<close>

definition sample_listing :: "listing_url \<Rightarrow> string \<Rightarrow> listing" where
  "sample_listing u p =
     \<lparr>index = 1, title = ''N/A'', url = u, price = p, location = ''N/A'', date = ''N/A'',
      room_count = ''N/A'', area = ''N/A'', floor_no = ''N/A'', age = ''N/A'',
      scraped_at = ''N/A'', page_number = 51\<rparr>"

definition sample_clock :: clock where
  "sample_clock = \<lparr>now_date = ''2024-01-02'', now_hour = 10,
     now_stamp = ''2024-01-02 10:00:00'', tomorrow_stamp = ''2024-01-03 10:00:00''\<rparr>"

text \<open>A scraper right after construction in an empty directory that can be written.\<close>

definition fresh_scraper :: scraper where
  "fresh_scraper = init_scraper Missing Missing True 0 sample_clock"

text \<open>The dataset store after the first merge of scenario D.\<close>

definition scenario_d_store :: scraper where
  "scenario_d_store =
     save_batch_data
       (fresh_scraper
          \<lparr>listings := [sample_listing (Link ''/a'') ''100'']\<rparr>)"

text \<open>
  The dataset store after one merge of a batch whose only row has no title link, so that
  its url is the placeholder \<^verbatim>\<open>N/A\<close>.
\<close>

definition no_link_store_once :: scraper where
  "no_link_store_once =
     save_batch_data (fresh_scraper\<lparr>listings := [sample_listing NoLink ''100'']\<rparr>)"

text \<open>A scraper whose session has seen the given numbers of successful and failed pages.\<close>

definition with_pages :: "nat \<Rightarrow> nat \<Rightarrow> scraper \<Rightarrow> scraper" where
  "with_pages ok bad s = s\<lparr>stats := (stats s)\<lparr>successful_pages := ok, failed_pages := bad\<rparr>\<rparr>"

text \<open>The log lines by which \<^verbatim>\<open>decide_continuation\<close> names the guard that decided.\<close>

fun is_verdict :: "event \<Rightarrow> bool" where
  "is_verdict DailyLimitExceeded = True"
| "is_verdict SameDayLimitExceeded = True"
| "is_verdict (LowSuccessRate r) = True"
| "is_verdict EveningHours = True"
| "is_verdict AllChecksOK = True"
| "is_verdict e = False"

text \<open>Scenario C: 50 pages scraped today under a limit of 50, and no page of the session succeeded.\<close>

definition scenario_c_progress :: progress where
  "scenario_c_progress =
     \<lparr>current_batch_id = 6, completed_batches = [], daily_pages_scraped = 50,
      last_scrape_date = ''2024-01-02'', session_stats = stats fresh_scraper,
      next_session_time = None\<rparr>"

definition scenario_c_scraper :: scraper where
  "scenario_c_scraper =
     (with_pages 0 2 fresh_scraper)\<lparr>progress_file := Content scenario_c_progress\<rparr>"

text \<open>Whether a visit counts as a successful page: it raised nothing and found a row.\<close>

fun delivers :: "outcome \<Rightarrow> bool" where
  "delivers FetchError = False"
| "delivers (Page rows response_time) = (rows \<noteq> [])"

text \<open>The page numbers of the log lines \<^verbatim>\<open>Scraping page N\<close>, in the order they were written.\<close>

fun visited :: "event list \<Rightarrow> int list" where
  "visited [] = []"
| "visited (ScrapingPage p # es) = p # visited es"
| "visited (e # es) = visited es"

text \<open>A fetcher under which every visit raises.\<close>

definition failing_fetch :: "int \<Rightarrow> outcome" where
  "failing_fetch p = FetchError"

text \<open>Scenario B: the visit of page 55 raises, every other visit finds one listing.\<close>

definition scenario_b_fetch :: "int \<Rightarrow> outcome" where
  "scenario_b_fetch p =
     (if p = 55 then FetchError else Page [Some (sample_listing (Link ''/a'') ''100'')] 2)"

text \<open>A progress file written the day before the sample clock's day, with 40 pages counted.\<close>

definition yesterday_progress :: progress where
  "yesterday_progress =
     \<lparr>current_batch_id = 1, completed_batches = [], daily_pages_scraped = 40,
      last_scrape_date = ''2024-01-01'', session_stats = stats fresh_scraper,
      next_session_time = None\<rparr>"

definition yesterday_scraper :: scraper where
  "yesterday_scraper = fresh_scraper\<lparr>progress_file := Content yesterday_progress\<rparr>"

section \<open>The dataset store\<close>

lemma say_simps [simp]:
  "listings (say e s) = listings s"
  "stats (say e s) = stats s"
  "progress_file (say e s) = progress_file s"
  "total_csv_file (say e s) = total_csv_file s"
  "fs_writable (say e s) = fs_writable s"
  "continuation_rules (say e s) = continuation_rules s"
  "logged (say e s) = logged s @ [e]"
  by (simp_all add: say_def)

lemma read_csv_cell_url_text:
  "read_csv_cell (url_text NoLink) = NaN"
  "read_csv_cell (url_text (Link href)) = Text (url_text (Link href))"
  by (simp_all add: read_csv_cell_def url_text_def na_values_def site_def)

lemma url_text_eq_iff [simp]: "url_text u = url_text v \<longleftrightarrow> u = v"
  by (cases u; cases v) (simp_all add: url_text_def site_def)

lemma read_csv_simps [simp]:
  "read_csv rows = [] \<longleftrightarrow> rows = []"
  "to_csv (read_csv rows) = rows"
  "to_csv (frame_of_listings rows) = rows"
  "frame_of_listings rows = [] \<longleftrightarrow> rows = []"
  by (simp_all add: read_csv_def to_csv_def frame_of_listings_def comp_def)

lemma read_csv_cell_eq_text:
  "read_csv_cell (url_text v) = Text (url_text u) \<longleftrightarrow> v = u \<and> u \<noteq> NoLink"
proof (cases v)
  case NoLink
  then show ?thesis by (auto simp: read_csv_cell_url_text)
next
  case (Link href)
  then show ?thesis by (auto simp: read_csv_cell_url_text)
qed

lemma text_eq_read_csv_cell:
  "Text (url_text u) = read_csv_cell (url_text v) \<longleftrightarrow> v = u \<and> u \<noteq> NoLink"
  using read_csv_cell_eq_text [of v u] by (simp only: eq_commute [of "Text (url_text u)"])

lemma text_cell_in_read_csv:
  "Text (url_text u) \<in> fst ` set (read_csv rows) \<longleftrightarrow> u \<noteq> NoLink \<and> u \<in> url ` set rows"
  by (auto simp: read_csv_def image_iff read_csv_cell_eq_text text_eq_read_csv_cell)

lemma load_existing_data_simps [simp]:
  "listings (snd (load_existing_data s)) = listings s"
  "total_csv_file (snd (load_existing_data s)) = total_csv_file s"
  "fs_writable (snd (load_existing_data s)) = fs_writable s"
  by (simp_all add: load_existing_data_def split: stored.splits)

lemma drop_duplicates_last_frame:
  "drop_duplicates_last (frame_of_listings rows) = frame_of_listings (last_of_each_url rows)"
  by (induction rows) (auto simp: frame_of_listings_def image_iff)

lemma filter_drop_duplicates_last_append:
  "\<forall>r \<in> set e. \<not> P r \<Longrightarrow>
   filter P (drop_duplicates_last (e @ n)) = filter P (drop_duplicates_last n)"
  by (induction e) auto

lemma set_last_of_each_url: "set (last_of_each_url rows) \<subseteq> set rows"
  by (induction rows) auto

lemma urls_last_of_each_url: "url ` set (last_of_each_url rows) = url ` set rows"
  by (induction rows) auto

lemma new_records:
  assumes "rows \<noteq> []"
  shows "to_csv (fst (remove_duplicates (frame_of_listings batch) (read_csv rows) s))
     = filter (\<lambda>r. url r = NoLink \<or> url r \<notin> url ` set rows) (last_of_each_url batch)"
proof -
  have "filter (\<lambda>r. fst r \<notin> fst ` set (read_csv rows))
          (drop_duplicates_last (read_csv rows @ frame_of_listings batch))
      = filter (\<lambda>r. fst r \<notin> fst ` set (read_csv rows))
          (frame_of_listings (last_of_each_url batch))"
    by (simp add: filter_drop_duplicates_last_append drop_duplicates_last_frame)
  moreover have "map snd (filter (\<lambda>r. fst r \<notin> fst ` set (read_csv rows)) (frame_of_listings xs))
      = filter (\<lambda>r. url r = NoLink \<or> url r \<notin> url ` set rows) xs" for xs
    by (induction xs) (auto simp: frame_of_listings_def text_cell_in_read_csv)
  ultimately show ?thesis
    using assms by (simp add: remove_duplicates_def Let_def to_csv_def)
qed

lemma save_batch_data_csv:
  "total_csv_file (save_batch_data s) =
     (let rows = stored_rows (total_csv_file s);
          new_rows = filter (\<lambda>r. url r = NoLink \<or> url r \<notin> url ` set rows)
                       (last_of_each_url (listings s))
      in if listings s = [] \<or> \<not> fs_writable s then total_csv_file s
         else if rows = [] then Content (listings s)
         else if new_rows = [] then total_csv_file s
         else Content (rows @ new_rows))"
proof (cases "stored_rows (total_csv_file s) = []")
  case True
  then have "fst (load_existing_data s) = []"
    by (auto simp: load_existing_data_def stored_rows_def split: stored.splits)
  then show ?thesis
    using True
    by (auto simp: save_batch_data_def Let_def case_prod_beta remove_duplicates_def)
next
  case False
  then obtain rows where rows: "total_csv_file s = Content rows" "rows \<noteq> []"
    by (auto simp: stored_rows_def split: stored.splits)
  have l: "load_existing_data s = (read_csv rows, say (ExistingLoaded (length rows)) s)"
    by (simp add: load_existing_data_def rows)
  have n: "to_csv (fst (remove_duplicates (frame_of_listings (listings s)) (read_csv rows)
              (say (ExistingLoaded (length rows)) s)))
      = filter (\<lambda>r. url r = NoLink \<or> url r \<notin> url ` set rows) (last_of_each_url (listings s))"
    using rows(2) by (rule new_records)
  have e: "fst (remove_duplicates n e s') = [] \<longleftrightarrow> to_csv (fst (remove_duplicates n e s')) = []"
    for n e s'
    by (simp add: to_csv_def)
  have f: "total_csv_file (snd (remove_duplicates n e s')) = total_csv_file s'"
    "fs_writable (snd (remove_duplicates n e s')) = fs_writable s'" for n e s'
    by (simp_all add: remove_duplicates_def Let_def)
  show ?thesis
    using rows
    by (simp add: save_batch_data_def Let_def case_prod_beta l e n f stored_rows_def
        append_rows_def)
qed


lemma save_batch_data_fields [simp]:
  "listings (save_batch_data s) = listings s"
  "fs_writable (save_batch_data s) = fs_writable s"
  "stats (save_batch_data s) = stats s"
  "progress_file (save_batch_data s) = progress_file s"
  "continuation_rules (save_batch_data s) = continuation_rules s"
  by (simp_all add: save_batch_data_def Let_def load_existing_data_def remove_duplicates_def
      split: stored.splits)

lemma fresh_scraper_files:
  "total_csv_file fresh_scraper = Missing"
  "fs_writable fresh_scraper"
  "listings fresh_scraper = []"
  by (simp_all add: fresh_scraper_def init_scraper_def load_progress_def
      create_initial_progress_def save_progress_def Let_def)

lemma scenario_d_store_csv:
  "total_csv_file scenario_d_store = Content [sample_listing (Link ''/a'') ''100'']"
  "fs_writable scenario_d_store"
  by (simp_all add: scenario_d_store_def save_batch_data_csv fresh_scraper_files
      stored_rows_def Let_def)

text \<open>
  C1 (as the code has it). For a batch whose records all carry a listing link as url, a
  record whose url already occurs in a non-empty store does not replace the stored
  record: when the file can be written, the store after the merge is the old store, row
  for row, followed by those rows of the batch whose url is not in the store yet (for a
  url that repeats in the batch, its last row), and otherwise the store is left as it
  was. In scenario D the store ends with exactly one record for url a, carrying price
  100.
\<close>

theorem merge_keeps_stored_rows:
  assumes "total_csv_file s = Content E" and "E \<noteq> []"
    and "NoLink \<notin> url ` set (listings s)"
  shows "total_csv_file (save_batch_data s) =
           (if fs_writable s
            then Content (E @ filter (\<lambda>r. url r \<notin> url ` set E) (last_of_each_url (listings s)))
            else Content E)"
proof -
  have "url r \<noteq> NoLink" if "r \<in> set (last_of_each_url (listings s))" for r
    using that assms(3) urls_last_of_each_url [of "listings s"] by (metis imageI)
  then have "filter (\<lambda>r. url r = NoLink \<or> url r \<notin> url ` set E) (last_of_each_url (listings s))
      = filter (\<lambda>r. url r \<notin> url ` set E) (last_of_each_url (listings s))"
    by (intro filter_cong) auto
  then show ?thesis
    using save_batch_data_csv [of s] assms(1,2)
    by (auto simp add: Let_def stored_rows_def)
qed

theorem merge_keeps_stored_rows_witness:
  "total_csv_file scenario_d_store = Content [sample_listing (Link ''/a'') ''100''] \<and>
   [sample_listing (Link ''/a'') ''100''] \<noteq> [] \<and>
   NoLink \<notin> url ` set [sample_listing (Link ''/a'') ''120''] \<and>
   fs_writable scenario_d_store \<and>
   total_csv_file
     (save_batch_data (scenario_d_store\<lparr>listings := [sample_listing (Link ''/a'') ''120'']\<rparr>))
     = Content [sample_listing (Link ''/a'') ''100'']"
  using merge_keeps_stored_rows
    [of "scenario_d_store\<lparr>listings := [sample_listing (Link ''/a'') ''120'']\<rparr>"
        "[sample_listing (Link ''/a'') ''100'']"]
  by (simp add: scenario_d_store_csv sample_listing_def)

text \<open>
  C1 as stated fails: after merging the record of url a with price 100 and then the
  record of url a with price 120, the store holds the record with price 100.
\<close>

theorem keep_last_counterexample:
  "stored_rows (total_csv_file
     (save_batch_data (scenario_d_store\<lparr>listings := [sample_listing (Link ''/a'') ''120'']\<rparr>)))
     = [sample_listing (Link ''/a'') ''100''] \<and>
   map price (stored_rows (total_csv_file
     (save_batch_data (scenario_d_store\<lparr>listings := [sample_listing (Link ''/a'') ''120'']\<rparr>))))
     \<noteq> [''120'']"
  by (simp add: save_batch_data_csv scenario_d_store_csv stored_rows_def
      Let_def sample_listing_def)

section \<open>Merging twice\<close>

lemma no_link_store_once_csv:
  "total_csv_file no_link_store_once = Content [sample_listing NoLink ''100'']"
  "fs_writable no_link_store_once"
  by (simp_all add: no_link_store_once_def save_batch_data_csv fresh_scraper_files
      stored_rows_def Let_def)

text \<open>
  C9. The merge of a batch is meant to leave the store as it is when every record of the
  batch is stored already. For the batch whose only row has no title link it does not:
  the url \<^verbatim>\<open>N/A\<close> is read back from the file as NaN and no longer matches, so the store
  holds the row once after one merge and twice after the second merge of the same batch.
\<close>

theorem no_link_merge_not_idempotent:
  "stored_rows (total_csv_file no_link_store_once) = [sample_listing NoLink ''100''] \<and>
   stored_rows (total_csv_file
     (save_batch_data (no_link_store_once\<lparr>listings := [sample_listing NoLink ''100'']\<rparr>)))
     = [sample_listing NoLink ''100'', sample_listing NoLink ''100''] \<and>
   total_csv_file
     (save_batch_data (no_link_store_once\<lparr>listings := [sample_listing NoLink ''100'']\<rparr>))
     \<noteq> total_csv_file no_link_store_once"
  by (simp add: save_batch_data_csv no_link_store_once_csv stored_rows_def
      Let_def sample_listing_def)

text \<open>
  For a batch whose records all carry a listing link, merging twice in succession leaves
  the dataset file as one merge leaves it, whatever the file held before and whether or
  not it can be written.
\<close>

lemma merge_of_links_idempotent:
  assumes "NoLink \<notin> url ` set R"
  shows "total_csv_file (save_batch_data ((save_batch_data (s\<lparr>listings := R\<rparr>))\<lparr>listings := R\<rparr>))
       = total_csv_file (save_batch_data (s\<lparr>listings := R\<rparr>))"
proof -
  define s0 where "s0 = s\<lparr>listings := R\<rparr>"
  define s1 where "s1 = (save_batch_data s0)\<lparr>listings := R\<rparr>"
  define e where "e = stored_rows (total_csv_file s0)"
  define n where "n = filter (\<lambda>r. url r = NoLink \<or> url r \<notin> url ` set e) (last_of_each_url R)"
  have l0: "listings s0 = R" by (simp add: s0_def)
  have l1: "listings s1 = R" "fs_writable s1 = fs_writable s0"
    "total_csv_file s1 = total_csv_file (save_batch_data s0)"
    by (simp_all add: s1_def)
  have first: "total_csv_file s1 =
      (if R = [] \<or> \<not> fs_writable s0 then total_csv_file s0
       else if e = [] then Content R
       else if n = [] then total_csv_file s0
       else Content (e @ n))"
    using save_batch_data_csv [of s0] by (simp add: Let_def l0 l1 e_def n_def)
  have covered: "filter (\<lambda>r. url r = NoLink \<or> url r \<notin> url ` set rows) (last_of_each_url R) = []"
    if sub: "url ` set R \<subseteq> url ` set rows" for rows
  proof -
    have "url r \<noteq> NoLink \<and> url r \<in> url ` set rows" if "r \<in> set (last_of_each_url R)" for r
    proof -
      have "r \<in> set R" using that set_last_of_each_url by blast
      then have "url r \<in> url ` set R" by (rule imageI)
      then show ?thesis using assms sub by (metis subsetD)
    qed
    then show ?thesis by (simp add: filter_empty_conv)
  qed
  have second: "total_csv_file (save_batch_data s1) = total_csv_file s1"
  proof (cases "R = [] \<or> \<not> fs_writable s0")
    case True
    then show ?thesis using save_batch_data_csv [of s1] by (auto simp: Let_def l1(1,2))
  next
    case False
    show ?thesis
    proof (cases "e = []")
      case True
      then have c: "total_csv_file s1 = Content R" using first False by simp
      show ?thesis
        using save_batch_data_csv [of s1] covered [of R] False
        by (simp add: Let_def l1(1,2) c stored_rows_def)
    next
      case nonempty: False
      show ?thesis
      proof (cases "n = []")
        case True
        then have c: "total_csv_file s1 = total_csv_file s0" using first False nonempty by simp
        show ?thesis
          using save_batch_data_csv [of s1] True nonempty
          by (simp add: Let_def l1(1,2) c n_def flip: e_def)
      next
        case new: False
        then have c: "total_csv_file s1 = Content (e @ n)" using first False nonempty by simp
        have "url ` set R \<subseteq> url ` set (e @ n)"
        proof
          fix u
          assume "u \<in> url ` set R"
          then have "u \<in> url ` set (last_of_each_url R)"
            by (simp add: urls_last_of_each_url)
          then obtain r where r: "r \<in> set (last_of_each_url R)" "u = url r" by blast
          show "u \<in> url ` set (e @ n)"
          proof (cases "u \<in> url ` set e")
            case True
            then show ?thesis by auto
          next
            case False
            then have "r \<in> set n" using r by (simp add: n_def)
            then show ?thesis using r(2) by auto
          qed
        qed
        then show ?thesis
          using save_batch_data_csv [of s1] covered [of "e @ n"] nonempty
          by (simp add: Let_def l1(1,2) c stored_rows_def)
      qed
    qed
  qed
  show ?thesis using second by (simp add: l1 flip: s0_def s1_def)
qed

section \<open>The progress store\<close>

text \<open>
  C8. \<^verbatim>\<open>load_progress\<close> always returns a progress state. When the file is missing, and
  when it is there but cannot be read or parsed, the state returned is the one
  \<^verbatim>\<open>create_initial_progress\<close> builds, with batch id 1, no page scraped today and no
  completed batch, and it is what the file holds afterwards when the file can be written.
\<close>

theorem load_progress_falls_back:
  assumes "progress_file s = Missing \<or> progress_file s = Unreadable"
  shows "current_batch_id (fst (load_progress now s)) = 1 \<and>
         daily_pages_scraped (fst (load_progress now s)) = 0 \<and>
         completed_batches (fst (load_progress now s)) = [] \<and>
         last_scrape_date (fst (load_progress now s)) = now_date now \<and>
         next_session_time (fst (load_progress now s)) = None \<and>
         progress_file (snd (load_progress now s)) =
           (if fs_writable s then Content (fst (load_progress now s)) else progress_file s)"
  using assms
  by (auto simp: load_progress_def create_initial_progress_def save_progress_def Let_def)

theorem load_progress_falls_back_witness:
  "progress_file (fresh_scraper\<lparr>progress_file := Missing\<rparr>) = Missing \<and>
   current_batch_id
     (fst (load_progress sample_clock (fresh_scraper\<lparr>progress_file := Missing\<rparr>))) = 1 \<and>
   daily_pages_scraped
     (fst (load_progress sample_clock (fresh_scraper\<lparr>progress_file := Missing\<rparr>))) = 0 \<and>
   completed_batches
     (fst (load_progress sample_clock (fresh_scraper\<lparr>progress_file := Missing\<rparr>))) = [] \<and>
   progress_file (fresh_scraper\<lparr>progress_file := Unreadable\<rparr>) = Unreadable \<and>
   current_batch_id
     (fst (load_progress sample_clock (fresh_scraper\<lparr>progress_file := Unreadable\<rparr>))) = 1 \<and>
   daily_pages_scraped
     (fst (load_progress sample_clock (fresh_scraper\<lparr>progress_file := Unreadable\<rparr>))) = 0 \<and>
   completed_batches
     (fst (load_progress sample_clock (fresh_scraper\<lparr>progress_file := Unreadable\<rparr>))) = [] \<and>
   progress_file
     (snd (load_progress sample_clock (fresh_scraper\<lparr>progress_file := Missing\<rparr>)))
     = Content (fst (load_progress sample_clock (fresh_scraper\<lparr>progress_file := Missing\<rparr>))) \<and>
   progress_file
     (snd (load_progress sample_clock (fresh_scraper\<lparr>progress_file := Unreadable\<rparr>)))
     = Content
         (fst (load_progress sample_clock (fresh_scraper\<lparr>progress_file := Unreadable\<rparr>)))"
  using load_progress_falls_back [of "fresh_scraper\<lparr>progress_file := Missing\<rparr>" sample_clock]
    load_progress_falls_back [of "fresh_scraper\<lparr>progress_file := Unreadable\<rparr>" sample_clock]
  by (simp add: fresh_scraper_files)

section \<open>Risk assessment\<close>

text \<open>
  C5. The risk level is LOW exactly when the success rate is at least 95 and the average
  response time is below 3, MEDIUM exactly when that fails and the success rate is at
  least 85 with the average response time below 5, and HIGH otherwise; the success rate
  the code computes is the one the specification defines.
\<close>

theorem assess_risk_level_spec:
  "calculate_success_rate s =
     spec_success_rate (successful_pages (stats s)) (failed_pages (stats s)) \<and>
   (assess_risk_level s = LOW \<longleftrightarrow>
      spec_success_rate (successful_pages (stats s)) (failed_pages (stats s)) \<ge> 95
      \<and> avg_response_time (stats s) < 3) \<and>
   (assess_risk_level s = MEDIUM \<longleftrightarrow>
      \<not> (spec_success_rate (successful_pages (stats s)) (failed_pages (stats s)) \<ge> 95
         \<and> avg_response_time (stats s) < 3)
      \<and> spec_success_rate (successful_pages (stats s)) (failed_pages (stats s)) \<ge> 85
      \<and> avg_response_time (stats s) < 5) \<and>
   (assess_risk_level s = HIGH \<longleftrightarrow>
      \<not> (spec_success_rate (successful_pages (stats s)) (failed_pages (stats s)) \<ge> 95
         \<and> avg_response_time (stats s) < 3)
      \<and> \<not> (spec_success_rate (successful_pages (stats s)) (failed_pages (stats s)) \<ge> 85
         \<and> avg_response_time (stats s) < 5))"
proof -
  have r: "calculate_success_rate s =
     spec_success_rate (successful_pages (stats s)) (failed_pages (stats s))"
    by (simp add: calculate_success_rate_def spec_success_rate_def Let_def)
  show ?thesis
    unfolding assess_risk_level_def Let_def r by simp
qed

section \<open>Pacing\<close>

lemma fresh_scraper_rules:
  "continuation_rules fresh_scraper = default_rules"
  "stats fresh_scraper = \<lparr>total_pages_scraped = 0, successful_pages = 0, failed_pages = 0,
                 total_listings = 0, avg_response_time = 0, session_start_time = 0\<rparr>"
  by (simp_all add: fresh_scraper_def init_scraper_def load_progress_def
      create_initial_progress_def save_progress_def Let_def)

lemma uniform_between:
  assumes "0 \<le> u" "u \<le> 1" "a \<le> b"
  shows "a \<le> uniform a b u \<and> uniform a b u \<le> b"
proof -
  have "0 \<le> (b - a) * u" using assms by simp
  moreover have "(b - a) * u \<le> (b - a) * 1"
    using assms by (intro mult_left_mono) simp_all
  ultimately show ?thesis by (simp add: uniform_def)
qed

lemma uniform_between_swapped:
  assumes "0 \<le> u" "u \<le> 1" "b \<le> a"
  shows "b \<le> uniform a b u \<and> uniform a b u \<le> a"
proof -
  have "0 \<le> (a - b) * u" using assms by simp
  moreover have "(a - b) * u \<le> (a - b) * 1"
    using assms by (intro mult_left_mono) simp_all
  moreover have "uniform a b u = a - (a - b) * u" by (simp add: uniform_def algebra_simps)
  ultimately show ?thesis by simp
qed

text \<open>
  What \<^verbatim>\<open>calculate_optimal_break\<close> computes for a draw \<open>0 \<le> u < 1\<close>: a break in
  [minBreak, minBreak+30] at LOW risk and in [minBreak+30, minBreak+60] at MEDIUM risk;
  at HIGH risk a break in [minBreak+60, maxBreak] if minBreak+60 \<le> maxBreak, and a break
  between maxBreak and minBreak+60 if the two bounds are the other way round.
\<close>

lemma calculate_optimal_break_bounds:
  assumes "0 \<le> u" and "u < 1"
  shows "case assess_risk_level s of
           LOW \<Rightarrow>
             min_break_minutes (continuation_rules s) \<le> calculate_optimal_break u s \<and>
             calculate_optimal_break u s \<le> min_break_minutes (continuation_rules s) + 30
         | MEDIUM \<Rightarrow>
             min_break_minutes (continuation_rules s) + 30 \<le> calculate_optimal_break u s \<and>
             calculate_optimal_break u s \<le> min_break_minutes (continuation_rules s) + 60
         | HIGH \<Rightarrow>
             if min_break_minutes (continuation_rules s) + 60
                  \<le> max_break_minutes (continuation_rules s)
             then min_break_minutes (continuation_rules s) + 60 \<le> calculate_optimal_break u s \<and>
                  calculate_optimal_break u s \<le> max_break_minutes (continuation_rules s)
             else max_break_minutes (continuation_rules s) \<le> calculate_optimal_break u s \<and>
                  calculate_optimal_break u s \<le> min_break_minutes (continuation_rules s) + 60"
proof -
  have u: "0 \<le> u" "u \<le> 1" using assms by simp_all
  show ?thesis
  proof (cases "assess_risk_level s")
    case LOW
    then show ?thesis
      using uniform_between [OF u, of "min_break_minutes (continuation_rules s)"
          "min_break_minutes (continuation_rules s) + 30"]
      by (simp add: calculate_optimal_break_def Let_def)
  next
    case MEDIUM
    then show ?thesis
      using uniform_between [OF u, of "min_break_minutes (continuation_rules s) + 30"
          "min_break_minutes (continuation_rules s) + 60"]
      by (simp add: calculate_optimal_break_def Let_def)
  next
    case HIGH
    then show ?thesis
      using uniform_between [OF u, of "min_break_minutes (continuation_rules s) + 60"
          "max_break_minutes (continuation_rules s)"]
        uniform_between_swapped [OF u, of "max_break_minutes (continuation_rules s)"
          "min_break_minutes (continuation_rules s) + 60"]
      by (simp add: calculate_optimal_break_def Let_def)
  qed
qed

lemma with_pages_fields [simp]:
  "successful_pages (stats (with_pages ok bad s)) = ok"
  "failed_pages (stats (with_pages ok bad s)) = bad"
  "avg_response_time (stats (with_pages ok bad s)) = avg_response_time (stats s)"
  "continuation_rules (with_pages ok bad s) = continuation_rules s"
  by (simp_all add: with_pages_def)

lemma sample_risks:
  "assess_risk_level fresh_scraper = LOW"
  "assess_risk_level (with_pages 18 2 fresh_scraper) = MEDIUM"
  "assess_risk_level (with_pages 0 2 fresh_scraper) = HIGH"
  by (simp_all add: assess_risk_level_def calculate_success_rate_def Let_def fresh_scraper_rules)

text \<open>
  C7. A HIGH-risk break is meant to last at least minBreak+60 and at most maxBreak
  minutes. With the configured 15 and 45 minutes it does not: for the draw 1/2 the break
  lasts 60 minutes, less than minBreak+60 = 75 and more than maxBreak = 45.
\<close>

theorem high_risk_break_counterexample:
  "assess_risk_level (with_pages 0 2 fresh_scraper) = HIGH \<and>
   calculate_optimal_break (1 / 2) (with_pages 0 2 fresh_scraper) = 60 \<and>
   calculate_optimal_break (1 / 2) (with_pages 0 2 fresh_scraper)
     < min_break_minutes (continuation_rules (with_pages 0 2 fresh_scraper)) + 60 \<and>
   max_break_minutes (continuation_rules (with_pages 0 2 fresh_scraper))
     < calculate_optimal_break (1 / 2) (with_pages 0 2 fresh_scraper)"
  by (simp add: sample_risks calculate_optimal_break_def Let_def uniform_def
      fresh_scraper_rules default_rules_def)

section \<open>Scraping one page\<close>

lemma success_rate_after_failure:
  assumes "successful_pages (stats s') = successful_pages (stats s)"
    and "failed_pages (stats s') = failed_pages (stats s) + 1"
  shows "calculate_success_rate s' < 100 \<and> calculate_success_rate s' \<le> calculate_success_rate s"
proof -
  define a where "a = successful_pages (stats s)"
  define b where "b = failed_pages (stats s)"
  define x :: rat where "x = of_nat a / of_nat (a + b + 1)"
  have r': "calculate_success_rate s' = x * 100"
    using assms by (simp add: calculate_success_rate_def Let_def a_def b_def x_def)
  have pos: "(0::rat) < of_nat (a + b + 1)" by simp
  have "(of_nat a :: rat) < of_nat (a + b + 1)" by (simp only: of_nat_less_iff)
  then have lt: "x < 1" unfolding x_def by (simp only: divide_less_eq_1_pos [OF pos])
  have "x * 100 < 1 * 100" using lt by (intro mult_strict_right_mono) simp_all
  then have 1: "calculate_success_rate s' < 100" unfolding r' by simp
  have 2: "calculate_success_rate s' \<le> calculate_success_rate s"
  proof (cases "a + b = 0")
    case True
    then show ?thesis using 1 by (simp add: calculate_success_rate_def Let_def a_def b_def)
  next
    case False
    define y :: rat where "y = of_nat a / of_nat (a + b)"
    have r: "calculate_success_rate s = y * 100"
      using False by (simp add: calculate_success_rate_def Let_def a_def b_def y_def)
    have "0 < a + b" using False by simp
    then have posab: "(0::rat) < of_nat (a + b)" by (simp only: of_nat_0_less_iff)
    have "a + b \<le> a + b + 1" by simp
    then have le: "(of_nat (a + b) :: rat) \<le> of_nat (a + b + 1)" by (simp only: of_nat_le_iff)
    have "x \<le> y"
      unfolding x_def y_def by (intro frac_le posab le) simp_all
    then have "x * 100 \<le> y * 100" by (intro mult_right_mono) simp_all
    then show ?thesis unfolding r r' .
  qed
  show ?thesis using 1 2 by simp
qed

text \<open>
  C4 (as the code has it). A page visit that raises nothing but finds no listing row is
  logged as a warning and counted as a failed page: \<^verbatim>\<open>scrape_page\<close> returns \<open>False\<close>,
  \<open>failed_pages\<close> grows by one, \<open>successful_pages\<close> stays, and the success rate the risk
  assessor reads is below 100 afterwards and not above what it was. A visit that finds
  rows of which none yields a listing record is a successful page: \<open>failed_pages\<close> stays,
  \<open>successful_pages\<close> grows by one and no listing is added.
\<close>

theorem empty_page_counts_as_failure:
  "(fetch page_num = Page [] response_time \<longrightarrow>
      \<not> fst (scrape_page fetch page_num s) \<and>
      logged (snd (scrape_page fetch page_num s))
        = logged s @ [ScrapingPage page_num, NoListingsFound page_num] \<and>
      failed_pages (stats (snd (scrape_page fetch page_num s))) = failed_pages (stats s) + 1 \<and>
      successful_pages (stats (snd (scrape_page fetch page_num s)))
        = successful_pages (stats s) \<and>
      calculate_success_rate (snd (scrape_page fetch page_num s)) < 100 \<and>
      calculate_success_rate (snd (scrape_page fetch page_num s)) \<le> calculate_success_rate s) \<and>
   (fetch page_num = Page rows response_time \<and> rows \<noteq> [] \<and> set rows \<subseteq> {None} \<longrightarrow>
      fst (scrape_page fetch page_num s) \<and>
      failed_pages (stats (snd (scrape_page fetch page_num s))) = failed_pages (stats s) \<and>
      successful_pages (stats (snd (scrape_page fetch page_num s)))
        = successful_pages (stats s) + 1 \<and>
      listings (snd (scrape_page fetch page_num s)) = listings s)"
proof (intro conjI impI)
  assume e: "fetch page_num = Page [] response_time"
  have 2: "failed_pages (stats (snd (scrape_page fetch page_num s))) = failed_pages (stats s) + 1"
    and 3: "successful_pages (stats (snd (scrape_page fetch page_num s)))
           = successful_pages (stats s)"
    using e by (simp_all add: scrape_page_def Let_def say_def)
  show "\<not> fst (scrape_page fetch page_num s)"
    using e by (simp add: scrape_page_def Let_def say_def)
  show "logged (snd (scrape_page fetch page_num s))
        = logged s @ [ScrapingPage page_num, NoListingsFound page_num]"
    using e by (simp add: scrape_page_def Let_def say_def)
  show "failed_pages (stats (snd (scrape_page fetch page_num s))) = failed_pages (stats s) + 1"
    by (rule 2)
  show "successful_pages (stats (snd (scrape_page fetch page_num s)))
        = successful_pages (stats s)"
    by (rule 3)
  show "calculate_success_rate (snd (scrape_page fetch page_num s)) < 100"
    using success_rate_after_failure [OF 3 2] by simp
  show "calculate_success_rate (snd (scrape_page fetch page_num s)) \<le> calculate_success_rate s"
    using success_rate_after_failure [OF 3 2] by simp
next
  assume r: "fetch page_num = Page rows response_time \<and> rows \<noteq> [] \<and> set rows \<subseteq> {None}"
  then have none: "List.map_filter (\<lambda>listing_data. listing_data) rows = []"
    by (auto simp: List.map_filter_def filter_empty_conv)
  show "fst (scrape_page fetch page_num s)"
    using r by (simp add: scrape_page_def Let_def say_def)
  show "failed_pages (stats (snd (scrape_page fetch page_num s))) = failed_pages (stats s)"
    using r by (simp add: scrape_page_def Let_def say_def)
  show "successful_pages (stats (snd (scrape_page fetch page_num s)))
        = successful_pages (stats s) + 1"
    using r by (simp add: scrape_page_def Let_def say_def)
  show "listings (snd (scrape_page fetch page_num s)) = listings s"
    using r none by (simp add: scrape_page_def Let_def say_def)
qed

theorem empty_page_counts_as_failure_witness:
  "\<not> fst (scrape_page (\<lambda>p. Page [] 2) 51 fresh_scraper) \<and>
   logged (snd (scrape_page (\<lambda>p. Page [] 2) 51 fresh_scraper))
     = logged fresh_scraper @ [ScrapingPage 51, NoListingsFound 51] \<and>
   failed_pages (stats (snd (scrape_page (\<lambda>p. Page [] 2) 51 fresh_scraper))) = 1 \<and>
   successful_pages (stats (snd (scrape_page (\<lambda>p. Page [] 2) 51 fresh_scraper))) = 0 \<and>
   calculate_success_rate (snd (scrape_page (\<lambda>p. Page [] 2) 51 fresh_scraper)) < 100 \<and>
   fst (scrape_page (\<lambda>p. Page [None] 2) 51 fresh_scraper) \<and>
   failed_pages (stats (snd (scrape_page (\<lambda>p. Page [None] 2) 51 fresh_scraper))) = 0 \<and>
   successful_pages (stats (snd (scrape_page (\<lambda>p. Page [None] 2) 51 fresh_scraper))) = 1 \<and>
   listings (snd (scrape_page (\<lambda>p. Page [None] 2) 51 fresh_scraper)) = []"
  using empty_page_counts_as_failure [of "\<lambda>p. Page [] 2" 51 2 fresh_scraper]
    empty_page_counts_as_failure [of "\<lambda>p. Page [None] 2" 51 2 fresh_scraper "[None]"]
  by (simp add: fresh_scraper_rules fresh_scraper_files)

text \<open>
  C4 as stated fails: on a fresh session, one visit that finds no row takes
  \<open>failed_pages\<close> from 0 to 1 and the success rate from 100 to 0.
\<close>

theorem empty_page_counterexample:
  "failed_pages (stats fresh_scraper) = 0 \<and>
   failed_pages (stats (snd (scrape_page (\<lambda>p. Page [] 2) 51 fresh_scraper))) = 1 \<and>
   calculate_success_rate fresh_scraper = 100 \<and>
   calculate_success_rate (snd (scrape_page (\<lambda>p. Page [] 2) 51 fresh_scraper)) = 0"
  by (simp add: scrape_page_def Let_def say_def calculate_success_rate_def fresh_scraper_rules)

section \<open>Continuation decision\<close>

lemma save_progress_fields [simp]:
  "stats (save_progress p s) = stats s"
  "continuation_rules (save_progress p s) = continuation_rules s"
  "fs_writable (save_progress p s) = fs_writable s"
  "total_csv_file (save_progress p s) = total_csv_file s"
  "listings (save_progress p s) = listings s"
  "progress_file (save_progress p s) = (if fs_writable s then Content p else progress_file s)"
  "filter is_verdict (logged (save_progress p s)) = filter is_verdict (logged s)"
  by (simp_all add: save_progress_def say_def)

lemma load_progress_fields [simp]:
  "stats (snd (load_progress now s)) = stats s"
  "continuation_rules (snd (load_progress now s)) = continuation_rules s"
  "fs_writable (snd (load_progress now s)) = fs_writable s"
  "total_csv_file (snd (load_progress now s)) = total_csv_file s"
  "listings (snd (load_progress now s)) = listings s"
  "filter is_verdict (logged (snd (load_progress now s))) = filter is_verdict (logged s)"
  by (simp_all add: load_progress_def create_initial_progress_def Let_def split: stored.splits)

lemma load_progress_say [simp]:
  "fst (load_progress now (say e s)) = fst (load_progress now s)"
  by (simp add: load_progress_def create_initial_progress_def Let_def split: stored.splits)

lemma schedule_tomorrow_result:
  "fst (schedule_tomorrow now s) = TOMORROW"
  "filter is_verdict (logged (snd (schedule_tomorrow now s))) = filter is_verdict (logged s)"
  by (simp_all add: schedule_tomorrow_def Let_def case_prod_beta)

lemma continue_with_break_result:
  "fst (continue_with_break u s) = CONTINUE"
  "filter is_verdict (logged (snd (continue_with_break u s))) = filter is_verdict (logged s)"
  by (simp_all add: continue_with_break_def intelligent_break_def Let_def)

lemma calculate_success_rate_cong:
  "stats s' = stats s \<Longrightarrow> calculate_success_rate s' = calculate_success_rate s"
  by (simp add: calculate_success_rate_def)

text \<open>
  C3. The decision is an ordered guard chain over the loaded progress state, the session
  statistics and the clock, in the order daily page limit, same-day batch limit, success
  threshold, hour of day. The decision is TOMORROW when some guard trips and CONTINUE
  otherwise, and the one verdict line the call adds to the log is that of the first guard
  that trips, whatever the later guards would say. In particular, when
  \<open>daily_pages_scraped\<close> has reached the limit the decision is TOMORROW for every session
  statistics.
\<close>

theorem ordered_guard_chain:
  "let p = fst (load_progress now s);
       r = continuation_rules s;
       g1 = (daily_pages_scraped p \<ge> daily_page_limit r);
       g2 = (int (length (filter (\<lambda>b. cb_date b = now_date now) (completed_batches p)))
               \<ge> same_day_max_batches r);
       g3 = (calculate_success_rate s < success_threshold r);
       g4 = (now_hour now \<ge> 18)
   in fst (decide_continuation u b now s)
        = (if g1 \<or> g2 \<or> g3 \<or> g4 then TOMORROW else CONTINUE) \<and>
      filter is_verdict (logged (snd (decide_continuation u b now s)))
        = filter is_verdict (logged s) @
            [if g1 then DailyLimitExceeded
             else if g2 then SameDayLimitExceeded
             else if g3 then LowSuccessRate (calculate_success_rate s)
             else if g4 then EveningHours
             else AllChecksOK] \<and>
      (g1 \<longrightarrow> fst (decide_continuation u b now s) = TOMORROW)"
proof -
  have r: "calculate_success_rate (snd (load_progress now (say (MakingDecision (batch_id b)) s)))
      = calculate_success_rate s"
    by (rule calculate_success_rate_cong) simp
  show ?thesis
    by (simp add: decide_continuation_def Let_def case_prod_beta r
        schedule_tomorrow_result continue_with_break_result)
qed

lemma scenario_c_facts:
  "fst (load_progress sample_clock scenario_c_scraper) = scenario_c_progress"
  "continuation_rules scenario_c_scraper = default_rules"
  "calculate_success_rate scenario_c_scraper = 0"
  "filter is_verdict (logged scenario_c_scraper) = []"
  by (simp_all add: scenario_c_scraper_def load_progress_def fresh_scraper_rules
      calculate_success_rate_def with_pages_def fresh_scraper_def init_scraper_def
      create_initial_progress_def save_progress_def say_def Let_def)

theorem ordered_guard_chain_witness:
  "daily_pages_scraped (fst (load_progress sample_clock scenario_c_scraper)) = 50 \<and>
   daily_page_limit (continuation_rules scenario_c_scraper) = 50 \<and>
   calculate_success_rate scenario_c_scraper = 0 \<and>
   fst (decide_continuation (1 / 2) (hd default_batches) sample_clock scenario_c_scraper)
     = TOMORROW \<and>
   filter is_verdict
     (logged (snd (decide_continuation (1 / 2) (hd default_batches) sample_clock
        scenario_c_scraper))) = [DailyLimitExceeded]"
  using ordered_guard_chain [of sample_clock scenario_c_scraper "1 / 2" "hd default_batches"]
  by (simp add: scenario_c_facts scenario_c_progress_def default_rules_def Let_def)

section \<open>Properties of a batch run\<close>

lemma visited_append [simp]: "visited (xs @ ys) = visited xs @ visited ys"
  by (induction xs rule: visited.induct) simp_all

lemma scrape_page_result:
  "fst (scrape_page fetch p s) = delivers (fetch p)"
  "visited (logged (snd (scrape_page fetch p s))) = visited (logged s) @ [p]"
  "failed_pages (stats (snd (scrape_page fetch p s)))
     = failed_pages (stats s) + (if delivers (fetch p) then 0 else 1)"
  "successful_pages (stats (snd (scrape_page fetch p s)))
     = successful_pages (stats s) + (if delivers (fetch p) then 1 else 0)"
  "progress_file (snd (scrape_page fetch p s)) = progress_file s"
  "fs_writable (snd (scrape_page fetch p s)) = fs_writable s"
  by (simp_all add: scrape_page_def Let_def say_def split: outcome.splits)

lemma scrape_pages_result:
  "visited (logged (scrape_pages fetch e ps s)) = visited (logged s) @ ps
   \<and> failed_pages (stats (scrape_pages fetch e ps s))
       = failed_pages (stats s) + length (filter (\<lambda>p. \<not> delivers (fetch p)) ps)
   \<and> successful_pages (stats (scrape_pages fetch e ps s))
       = successful_pages (stats s) + length (filter (\<lambda>p. delivers (fetch p)) ps)
   \<and> progress_file (scrape_pages fetch e ps s) = progress_file s
   \<and> fs_writable (scrape_pages fetch e ps s) = fs_writable s"
proof (induction ps arbitrary: s)
  case Nil
  show ?case by simp
next
  case (Cons p ps)
  obtain ok s1 where sp: "scrape_page fetch p s = (ok, s1)" by (cases "scrape_page fetch p s")
  have s1: "ok = delivers (fetch p)"
    "visited (logged s1) = visited (logged s) @ [p]"
    "failed_pages (stats s1) = failed_pages (stats s) + (if delivers (fetch p) then 0 else 1)"
    "successful_pages (stats s1)
       = successful_pages (stats s) + (if delivers (fetch p) then 1 else 0)"
    "progress_file s1 = progress_file s" "fs_writable s1 = fs_writable s"
    using scrape_page_result [of fetch p s] sp by simp_all
  show ?case
    using Cons.IH s1
    by (simp add: sp Let_def smart_page_delay_def)
qed

lemma visited_save_batch_data [simp]:
  "visited (logged (save_batch_data s)) = visited (logged s)"
  by (simp add: save_batch_data_def Let_def load_existing_data_def remove_duplicates_def
      say_def split: stored.splits)

lemma visited_save_progress [simp]:
  "visited (logged (save_progress p s)) = visited (logged s)"
  by (simp add: save_progress_def say_def)

lemma visited_load_progress [simp]:
  "visited (logged (snd (load_progress now s))) = visited (logged s)"
  by (simp add: load_progress_def create_initial_progress_def Let_def say_def
      save_progress_def split: stored.splits)

lemma py_range_upto: "py_range a (b + 1) = [a..b]"
  by (simp add: py_range_def)

lemma length_py_range: "a \<le> b \<Longrightarrow> int (length (py_range a (b + 1))) = b - a + 1"
  by (simp add: py_range_def)

lemma load_progress_stored:
  "progress_file s = Content p \<Longrightarrow> fst (load_progress now s) = p"
  by (simp add: load_progress_def)

lemma load_progress_same_file:
  assumes "progress_file s' = progress_file s"
  shows "current_batch_id (fst (load_progress now s')) = current_batch_id (fst (load_progress now s))"
    "completed_batches (fst (load_progress now s')) = completed_batches (fst (load_progress now s))"
    "daily_pages_scraped (fst (load_progress now s'))
       = daily_pages_scraped (fst (load_progress now s))"
    "last_scrape_date (fst (load_progress now s')) = last_scrape_date (fst (load_progress now s))"
    "next_session_time (fst (load_progress now s')) = next_session_time (fst (load_progress now s))"
  using assms
  by (simp_all add: load_progress_def create_initial_progress_def Let_def split: stored.splits)

lemma run_batch_result:
  "fst (run_batch fetch b now s)"
  "visited (logged (snd (run_batch fetch b now s))) = visited (logged s) @ [batch_start b..batch_end b]"
  "failed_pages (stats (snd (run_batch fetch b now s)))
     = failed_pages (stats s)
       + length (filter (\<lambda>p. \<not> delivers (fetch p)) [batch_start b..batch_end b])"
  "successful_pages (stats (snd (run_batch fetch b now s)))
     = successful_pages (stats s)
       + length (filter (\<lambda>p. delivers (fetch p)) [batch_start b..batch_end b])"
  using scrape_pages_result [of fetch "batch_end b" "[batch_start b..batch_end b]"
      "(say (BatchStarting (batch_start b) (batch_end b)) s)\<lparr>current_batch := Some b, listings := []\<rparr>"]
  by (simp_all add: run_batch_def Let_def case_prod_beta py_range_upto say_def)

lemma run_batch_progress:
  assumes "fs_writable s"
  shows "\<exists>p. progress_file (snd (run_batch fetch b now s)) = Content p
     \<and> current_batch_id p = batch_id b + 1
     \<and> daily_pages_scraped p
         = daily_pages_scraped (fst (load_progress now s))
           + int (length (py_range (batch_start b) (batch_end b + 1)))
     \<and> last_scrape_date p = last_scrape_date (fst (load_progress now s))
     \<and> completed_batches p \<noteq> []
     \<and> butlast (completed_batches p) = completed_batches (fst (load_progress now s))
     \<and> cb_id (last (completed_batches p)) = batch_id b
     \<and> pages_scraped (last (completed_batches p))
         = int (length (py_range (batch_start b) (batch_end b + 1)))"
proof -
  define s3 where "s3 = scrape_pages fetch (batch_end b)
      (py_range (batch_start b) (batch_end b + 1))
      ((say (BatchStarting (batch_start b) (batch_end b)) s)\<lparr>current_batch := Some b, listings := []\<rparr>)"
  define s4 where "s4 = save_batch_data s3"
  have s3: "progress_file s3 = progress_file s" "fs_writable s3 = fs_writable s"
    unfolding s3_def using scrape_pages_result by (simp_all add: say_def)
  have s4: "progress_file s4 = progress_file s" "fs_writable s4"
    unfolding s4_def using s3 assms by simp_all
  note same = load_progress_same_file [OF s4(1), of now]
  show ?thesis
    unfolding run_batch_def Let_def case_prod_beta
    by (simp add: s4 same flip: s3_def s4_def)
qed

lemma fresh_scraper_progress:
  "daily_pages_scraped (fst (load_progress now fresh_scraper)) = 0"
  "failed_pages (stats fresh_scraper) = 0"
  "successful_pages (stats fresh_scraper) = 0"
  by (simp_all add: fresh_scraper_def init_scraper_def load_progress_def
      create_initial_progress_def save_progress_def say_def Let_def)

lemma first_batch:
  "batch_id (hd default_batches) = 1"
  "batch_start (hd default_batches) = 51"
  "batch_end (hd default_batches) = 60"
  by (simp_all add: default_batches_def)

lemma yesterday_scraper_facts:
  "progress_file yesterday_scraper = Content yesterday_progress"
  "fs_writable yesterday_scraper"
  "last_scrape_date yesterday_progress = ''2024-01-01''"
  "daily_pages_scraped yesterday_progress = 40"
  "now_date sample_clock = ''2024-01-02''"
  by (simp_all add: yesterday_scraper_def yesterday_progress_def fresh_scraper_files
      sample_clock_def)

text \<open>
  C10. For every batch with \<open>start \<le> end\<close> and every fetcher, the completion record
  appended by \<^verbatim>\<open>run_batch\<close> has \<open>pages_scraped = end - start + 1\<close>, and
  \<open>daily_pages_scraped\<close> grows by the same number, while the pages whose visit failed
  are counted in \<open>failed_pages\<close>: failed pages count toward the daily page limit.
\<close>

theorem run_batch_counts_every_page:
  assumes "batch_start b \<le> batch_end b" and "fs_writable s"
  shows "pages_scraped
           (last (completed_batches (fst (load_progress now' (snd (run_batch fetch b now s))))))
           = batch_end b - batch_start b + 1 \<and>
         daily_pages_scraped (fst (load_progress now' (snd (run_batch fetch b now s))))
           = daily_pages_scraped (fst (load_progress now s))
             + (batch_end b - batch_start b + 1) \<and>
         failed_pages (stats (snd (run_batch fetch b now s)))
           = failed_pages (stats s)
             + length (filter (\<lambda>p. \<not> delivers (fetch p)) [batch_start b..batch_end b])"
proof -
  obtain p where p: "progress_file (snd (run_batch fetch b now s)) = Content p"
    "daily_pages_scraped p = daily_pages_scraped (fst (load_progress now s))
       + int (length (py_range (batch_start b) (batch_end b + 1)))"
    "pages_scraped (last (completed_batches p))
       = int (length (py_range (batch_start b) (batch_end b + 1)))"
    using run_batch_progress [OF assms(2), of fetch b now] by blast
  have l: "fst (load_progress now' (snd (run_batch fetch b now s))) = p"
    using p(1) by (rule load_progress_stored)
  show ?thesis
    using p(2,3) run_batch_result(3) [of fetch b now s]
    by (simp add: l length_py_range [OF assms(1)])
qed

theorem run_batch_counts_every_page_witness:
  "batch_start (hd default_batches) \<le> batch_end (hd default_batches) \<and>
   fs_writable fresh_scraper \<and>
   pages_scraped (last (completed_batches (fst (load_progress sample_clock
     (snd (run_batch failing_fetch (hd default_batches) sample_clock fresh_scraper)))))) = 10 \<and>
   daily_pages_scraped (fst (load_progress sample_clock
     (snd (run_batch failing_fetch (hd default_batches) sample_clock fresh_scraper)))) = 10 \<and>
   failed_pages (stats
     (snd (run_batch failing_fetch (hd default_batches) sample_clock fresh_scraper))) = 10"
  using run_batch_counts_every_page
    [of "hd default_batches" fresh_scraper sample_clock failing_fetch sample_clock]
  by (simp add: first_batch fresh_scraper_files fresh_scraper_progress failing_fetch_def)

text \<open>
  C2 (as the code has it). For every persisted progress state, whatever its
  \<open>last_scrape_date\<close>, running the next batch adds the batch's page count to the
  \<open>daily_pages_scraped\<close> it finds; nothing resets the counter, and \<open>last_scrape_date\<close>
  stays as it was.
\<close>

theorem run_batch_adds_to_daily_pages:
  assumes "progress_file s = Content p" and "fs_writable s"
    and "batch_start b \<le> batch_end b"
  shows "daily_pages_scraped (fst (load_progress now' (snd (run_batch fetch b now s))))
           = daily_pages_scraped p + (batch_end b - batch_start b + 1) \<and>
         last_scrape_date (fst (load_progress now' (snd (run_batch fetch b now s))))
           = last_scrape_date p"
proof -
  obtain q where q: "progress_file (snd (run_batch fetch b now s)) = Content q"
    "daily_pages_scraped q = daily_pages_scraped (fst (load_progress now s))
       + int (length (py_range (batch_start b) (batch_end b + 1)))"
    "last_scrape_date q = last_scrape_date (fst (load_progress now s))"
    using run_batch_progress [OF assms(2), of fetch b now] by blast
  have l: "fst (load_progress now' (snd (run_batch fetch b now s))) = q"
    using q(1) by (rule load_progress_stored)
  have l0: "fst (load_progress now s) = p"
    using assms(1) by (rule load_progress_stored)
  show ?thesis
    using q(2,3) by (simp add: l l0 length_py_range [OF assms(3)])
qed

theorem run_batch_adds_to_daily_pages_witness:
  "progress_file yesterday_scraper = Content yesterday_progress \<and>
   fs_writable yesterday_scraper \<and>
   batch_start (hd default_batches) \<le> batch_end (hd default_batches) \<and>
   daily_pages_scraped (fst (load_progress sample_clock
     (snd (run_batch scenario_b_fetch (hd default_batches) sample_clock yesterday_scraper))))
     = 50 \<and>
   last_scrape_date (fst (load_progress sample_clock
     (snd (run_batch scenario_b_fetch (hd default_batches) sample_clock yesterday_scraper))))
     = ''2024-01-01''"
  using run_batch_adds_to_daily_pages
    [of yesterday_scraper yesterday_progress "hd default_batches" sample_clock
       scenario_b_fetch sample_clock]
  by (simp add: first_batch yesterday_scraper_facts)

text \<open>
  C2 as stated fails: the progress file was last written on 2024-01-01 with 40 pages
  counted; a batch of 10 pages run on 2024-01-02 leaves \<open>daily_pages_scraped\<close> at 50,
  not at 10.
\<close>

theorem daily_reset_counterexample:
  "last_scrape_date (fst (load_progress sample_clock yesterday_scraper)) = ''2024-01-01'' \<and>
   now_date sample_clock = ''2024-01-02'' \<and>
   daily_pages_scraped (fst (load_progress sample_clock yesterday_scraper)) = 40 \<and>
   daily_pages_scraped (fst (load_progress sample_clock
     (snd (run_batch failing_fetch (hd default_batches) sample_clock yesterday_scraper))))
     = 50 \<and>
   daily_pages_scraped (fst (load_progress sample_clock
     (snd (run_batch failing_fetch (hd default_batches) sample_clock yesterday_scraper))))
     \<noteq> 10"
proof -
  obtain q where q: "progress_file
        (snd (run_batch failing_fetch (hd default_batches) sample_clock yesterday_scraper))
        = Content q"
    "daily_pages_scraped q = daily_pages_scraped (fst (load_progress sample_clock yesterday_scraper))
       + int (length (py_range (batch_start (hd default_batches))
                (batch_end (hd default_batches) + 1)))"
    using run_batch_progress [OF yesterday_scraper_facts(2), of failing_fetch
        "hd default_batches" sample_clock] by blast
  have l: "fst (load_progress sample_clock
      (snd (run_batch failing_fetch (hd default_batches) sample_clock yesterday_scraper))) = q"
    using q(1) by (rule load_progress_stored)
  have l0: "fst (load_progress sample_clock yesterday_scraper) = yesterday_progress"
    using yesterday_scraper_facts(1) by (rule load_progress_stored)
  show ?thesis
    using q(2) by (simp add: l l0 yesterday_scraper_facts first_batch py_range_def)
qed

text \<open>
  C6. For every batch and every fetcher \<^verbatim>\<open>run_batch\<close> returns \<open>True\<close> after visiting
  every page from \<open>start\<close> to \<open>end\<close> in ascending order, each page once, and each visit
  adds one to \<open>successful_pages\<close> or to \<open>failed_pages\<close>. For the batch with id 1 over the
  pages 51 to 60, when the visit of page 55 is the only one that does not deliver,
  \<open>failed_pages\<close> grows by 1, \<open>successful_pages\<close> by 9, and the progress file, when it
  can be written, holds \<open>current_batch_id = 2\<close> and the completion record of batch 1.
\<close>

theorem run_batch_visits_every_page:
  "fst (run_batch fetch b now s) \<and>
   visited (logged (snd (run_batch fetch b now s)))
     = visited (logged s) @ [batch_start b..batch_end b] \<and>
   failed_pages (stats (snd (run_batch fetch b now s)))
     = failed_pages (stats s)
       + length (filter (\<lambda>p. \<not> delivers (fetch p)) [batch_start b..batch_end b]) \<and>
   successful_pages (stats (snd (run_batch fetch b now s)))
     = successful_pages (stats s)
       + length (filter (\<lambda>p. delivers (fetch p)) [batch_start b..batch_end b]) \<and>
   (batch_id b = 1 \<and> batch_start b = 51 \<and> batch_end b = 60 \<and> fs_writable s \<and>
    (\<forall>p. 51 \<le> p \<and> p \<le> 60 \<longrightarrow> delivers (fetch p) = (p \<noteq> 55)) \<longrightarrow>
      failed_pages (stats (snd (run_batch fetch b now s))) = failed_pages (stats s) + 1 \<and>
      successful_pages (stats (snd (run_batch fetch b now s)))
        = successful_pages (stats s) + 9 \<and>
      current_batch_id (fst (load_progress now' (snd (run_batch fetch b now s)))) = 2 \<and>
      cb_id (last (completed_batches
        (fst (load_progress now' (snd (run_batch fetch b now s)))))) = 1)"
proof -
  have scenario: "failed_pages (stats (snd (run_batch fetch b now s))) = failed_pages (stats s) + 1 \<and>
      successful_pages (stats (snd (run_batch fetch b now s)))
        = successful_pages (stats s) + 9 \<and>
      current_batch_id (fst (load_progress now' (snd (run_batch fetch b now s)))) = 2 \<and>
      cb_id (last (completed_batches
        (fst (load_progress now' (snd (run_batch fetch b now s)))))) = 1"
    if b: "batch_id b = 1" "batch_start b = 51" "batch_end b = 60"
      and w: "fs_writable s"
      and f: "\<forall>p. 51 \<le> p \<and> p \<le> 60 \<longrightarrow> delivers (fetch p) = (p \<noteq> 55)"
  proof -
    have pages: "[batch_start b..batch_end b] = [51, 52, 53, 54, 55, 56, 57, 58, 59, 60]"
      by (simp add: b)
    have d: "delivers (fetch 51)" "delivers (fetch 52)" "delivers (fetch 53)"
      "delivers (fetch 54)" "\<not> delivers (fetch 55)" "delivers (fetch 56)"
      "delivers (fetch 57)" "delivers (fetch 58)" "delivers (fetch 59)" "delivers (fetch 60)"
      using f by simp_all
    obtain q where q: "progress_file (snd (run_batch fetch b now s)) = Content q"
      "current_batch_id q = batch_id b + 1" "cb_id (last (completed_batches q)) = batch_id b"
      using run_batch_progress [OF w, of fetch b now] by blast
    have l: "fst (load_progress now' (snd (run_batch fetch b now s))) = q"
      using q(1) by (rule load_progress_stored)
    show ?thesis
      using run_batch_result(3,4) [of fetch b now s] q(2,3)
      by (simp add: pages d l b)
  qed
  show ?thesis
    using run_batch_result [of fetch b now s] scenario by blast
qed

lemma scenario_b_fetch_delivers:
  "delivers (scenario_b_fetch p) = (p \<noteq> 55)"
  by (simp add: scenario_b_fetch_def)

theorem run_batch_visits_every_page_witness:
  "fs_writable fresh_scraper \<and>
   visited (logged (snd (run_batch scenario_b_fetch (hd default_batches) sample_clock
     fresh_scraper))) = [51, 52, 53, 54, 55, 56, 57, 58, 59, 60] \<and>
   failed_pages (stats (snd (run_batch scenario_b_fetch (hd default_batches) sample_clock
     fresh_scraper))) = 1 \<and>
   successful_pages (stats (snd (run_batch scenario_b_fetch (hd default_batches) sample_clock
     fresh_scraper))) = 9 \<and>
   current_batch_id (fst (load_progress sample_clock
     (snd (run_batch scenario_b_fetch (hd default_batches) sample_clock fresh_scraper)))) = 2"
proof -
  have v: "visited (logged fresh_scraper) = []"
    by (simp add: fresh_scraper_def init_scraper_def load_progress_def
      create_initial_progress_def save_progress_def say_def Let_def)
  show ?thesis
    using run_batch_visits_every_page
      [of scenario_b_fetch "hd default_batches" sample_clock fresh_scraper sample_clock]
    by (simp add: first_batch fresh_scraper_files fresh_scraper_progress
        scenario_b_fetch_delivers v)
qed

end
